theory Spec2Isabelle
  imports Main "HOL-Library.AList"
begin

text \<open>
  A model of \<open>frescobaldi_app/open_file_at_cursor.py\<close>: the functions
  \<open>includeTarget\<close>, \<open>genToolTipInfo\<close>, \<open>filenames_at_cursor\<close>,
  \<open>open_file_at_cursor\<close> and \<open>open_targets\<close>, which resolve the file names of
  include directives against a search path. What the module takes from outside is made
  explicit: the filesystem is a function from paths to what is found there, the lexer
  (\<open>documentinfo\<close>) is a parameter, the text document is a list of blocks. A function
  that can raise returns its exception as a value, and the loop that may run forever
  returns an option.
\<close>

section \<open>Python strings and truthiness\<close>

text \<open>
  Python strings are modelled as \<open>string\<close> (a list of characters); indices and lengths
  count characters, as Python and Qt count them for text restricted to 8-bit code points.
\<close>

definition startswith :: "string \<Rightarrow> string \<Rightarrow> bool" where
  "startswith s pre = (take (length pre) s = pre)"

definition endswith :: "string \<Rightarrow> string \<Rightarrow> bool" where
  "endswith s suf = (drop (length s - length suf) s = suf \<and> length suf \<le> length s)"

text \<open>The expression \<open>a or b\<close> on two lists: \<open>a\<close> when it is non-empty, else \<open>b\<close>.\<close>

definition por :: "'a list \<Rightarrow> 'a list \<Rightarrow> 'a list" where
  "por a b = (if a \<noteq> [] then a else b)"

text \<open>
  \<open>str.isspace\<close> on the code points below 256: TAB, LF, VT, FF, CR, the separators
  0x1C to 0x1F, SPACE, NEL (0x85) and NBSP (0xA0).
\<close>

definition isspace :: "char \<Rightarrow> bool" where
  "isspace c = (c \<in> set [CHR 0x09, CHR 0x0A, CHR 0x0B, CHR 0x0C, CHR 0x0D,
                         CHR 0x1C, CHR 0x1D, CHR 0x1E, CHR 0x1F, CHR 0x20,
                         CHR 0x85, CHR 0xA0])"

definition strip :: "string \<Rightarrow> string" where
  "strip s = rev (dropWhile isspace (rev (dropWhile isspace s)))"

section \<open>Exceptions\<close>

text \<open>
  The exceptions that can be raised in the module: \<open>ValueError\<close> by \<open>os.access\<close> on a
  path with an embedded NUL character, \<open>TypeError\<close> by a call with the wrong number of
  arguments or a loop over a value that is not iterable, \<open>AttributeError\<close> by a method
  looked up on a value that has none of that name. A function that can raise returns
  \<open>exception + 'a\<close>, with \<open>Inl\<close> for the exception.
\<close>

datatype exception = TypeError | AttributeError | ValueError

section \<open>The \<open>os\<close> module: POSIX paths and the filesystem\<close>

text \<open>\<open>posixpath.join(a, b)\<close> for two arguments.\<close>

definition os_path_join :: "string \<Rightarrow> string \<Rightarrow> string" where
  "os_path_join a b =
     (if startswith b ''/'' then b
      else if a = [] \<or> endswith a ''/'' then a @ b
      else a @ ''/'' @ b)"

text \<open>\<open>path.split('/')\<close>.\<close>

fun split_sep :: "string \<Rightarrow> string list" where
  "split_sep [] = [[]]"
| "split_sep (c # cs) =
     (if c = CHR ''/'' then [] # split_sep cs
      else (case split_sep cs of [] \<Rightarrow> [[c]] | w # ws \<Rightarrow> (c # w) # ws))"

text \<open>\<open>'/'.join(comps)\<close>.\<close>

fun sep_join :: "string list \<Rightarrow> string" where
  "sep_join [] = []"
| "sep_join [c] = c"
| "sep_join (c # cs) = c @ ''/'' @ sep_join cs"

text \<open>The component loop of \<open>posixpath.normpath\<close>.\<close>

fun norm_comps :: "nat \<Rightarrow> string list \<Rightarrow> string list \<Rightarrow> string list" where
  "norm_comps initial_slashes [] new_comps = new_comps"
| "norm_comps initial_slashes (component # comps) new_comps =
     (if component = [] \<or> component = ''.'' then norm_comps initial_slashes comps new_comps
      else if component \<noteq> ''..'' \<or> (initial_slashes = 0 \<and> new_comps = [])
              \<or> (new_comps \<noteq> [] \<and> last new_comps = ''..'')
        then norm_comps initial_slashes comps (new_comps @ [component])
      else if new_comps \<noteq> [] then norm_comps initial_slashes comps (butlast new_comps)
      else norm_comps initial_slashes comps new_comps)"

definition os_path_normpath :: "string \<Rightarrow> string" where
  "os_path_normpath path =
     (if path = [] then ''.''
      else
        let initial_slashes =
              (if startswith path ''/''
               then (if startswith path ''//'' \<and> \<not> startswith path ''///'' then 2 else 1)
               else 0);
            comps = norm_comps initial_slashes (split_sep path) [];
            joined = sep_join comps;
            res = (if initial_slashes \<noteq> 0
                   then replicate initial_slashes (CHR ''/'') @ joined else joined)
        in if res = [] then ''.'' else res)"

text \<open>\<open>posixpath.dirname\<close>: the head up to the last slash, trailing slashes removed
  unless the head consists of slashes only.\<close>

definition os_path_dirname :: "string \<Rightarrow> string" where
  "os_path_dirname p =
     (let head = rev (dropWhile (\<lambda>c. c \<noteq> CHR ''/'') (rev p))
      in if head \<noteq> [] \<and> head \<noteq> replicate (length head) (CHR ''/'')
         then rev (dropWhile (\<lambda>c. c = CHR ''/'') (rev head))
         else head)"

text \<open>
  The state of the filesystem at call time: what a \<open>stat\<close> of a path finds. A path that
  maps to \<open>None\<close> does not exist.
\<close>

record stat =
  st_isdir :: bool
  st_readable :: bool

type_synonym filesystem = "string \<Rightarrow> stat option"

text \<open>
  No file has a NUL character in its path. \<open>os.path.exists\<close> and \<open>os.path.isdir\<close>
  answer \<open>False\<close> on such a path; \<open>os.access\<close> raises \<open>ValueError\<close> on it.
\<close>

definition embedded_null :: "string \<Rightarrow> bool" where
  "embedded_null name = (CHR 0x00 \<in> set name)"

definition os_path_exists :: "filesystem \<Rightarrow> string \<Rightarrow> bool" where
  "os_path_exists fs name = (\<not> embedded_null name \<and> fs name \<noteq> None)"

definition os_path_isdir :: "filesystem \<Rightarrow> string \<Rightarrow> bool" where
  "os_path_isdir fs name =
     (\<not> embedded_null name \<and> (case fs name of None \<Rightarrow> False | Some s \<Rightarrow> st_isdir s))"

text \<open>\<open>os.access(name, os.R_OK)\<close>.\<close>

definition os_access_R_OK :: "filesystem \<Rightarrow> string \<Rightarrow> exception + bool" where
  "os_access_R_OK fs name =
     (if embedded_null name then Inl ValueError
      else Inr (case fs name of None \<Rightarrow> False | Some s \<Rightarrow> st_readable s))"

section \<open>The host document: blocks, cursors, text search\<close>

text \<open>
  A text document is a sequence of blocks (lines). Each block has its index, the offset
  of its first character and its text; its length counts the text and the separator that
  ends it.
\<close>

record QTextBlock =
  blockNumber :: int
  position :: nat
  "text" :: string

definition block_length :: "QTextBlock \<Rightarrow> nat" where
  "block_length b = length (text b) + 1"

record QTextDocument =
  blocks :: "string list"
  toLocalFile :: string

fun blocks_from :: "int \<Rightarrow> nat \<Rightarrow> string list \<Rightarrow> QTextBlock list" where
  "blocks_from n pos [] = []"
| "blocks_from n pos (t # ts) =
     \<lparr>blockNumber = n, position = pos, text = t\<rparr> # blocks_from (n + 1) (pos + length t + 1) ts"

definition all_blocks :: "QTextDocument \<Rightarrow> QTextBlock list" where
  "all_blocks doc = blocks_from 0 0 (blocks doc)"

text \<open>The block an invalid position yields: number -1, position 0, no text.\<close>

definition invalid_block :: QTextBlock where
  "invalid_block = \<lparr>blockNumber = -1, position = 0, text = []\<rparr>"

fun find_block_in :: "nat \<Rightarrow> QTextBlock list \<Rightarrow> QTextBlock" where
  "find_block_in pos [] = invalid_block"
| "find_block_in pos (b # bs) =
     (if pos < position b + block_length b then b else find_block_in pos bs)"

definition findBlock :: "QTextDocument \<Rightarrow> nat \<Rightarrow> QTextBlock" where
  "findBlock doc pos = find_block_in pos (all_blocks doc)"

text \<open>The whole text, blocks separated by a line feed.\<close>

fun lines_join :: "string list \<Rightarrow> string" where
  "lines_join [] = []"
| "lines_join [t] = t"
| "lines_join (t # ts) = t @ [CHR 0x0A] @ lines_join ts"

definition plainText :: "QTextDocument \<Rightarrow> string" where
  "plainText doc = lines_join (blocks doc)"

text \<open>
  The plain text of a selection is its characters with every no-break space (0xA0)
  replaced by a space.
\<close>

definition nbsp_to_space :: "string \<Rightarrow> string" where
  "nbsp_to_space s = map (\<lambda>c. if c = CHR 0xA0 then CHR 0x20 else c) s"

record QTextCursor =
  document :: QTextDocument
  anchor :: nat
  cursor_position :: nat

definition selectionStart :: "QTextCursor \<Rightarrow> nat" where
  "selectionStart c = min (anchor c) (cursor_position c)"

definition selectionEnd :: "QTextCursor \<Rightarrow> nat" where
  "selectionEnd c = max (anchor c) (cursor_position c)"

definition hasSelection :: "QTextCursor \<Rightarrow> bool" where
  "hasSelection c = (anchor c \<noteq> cursor_position c)"

definition block :: "QTextCursor \<Rightarrow> QTextBlock" where
  "block c = findBlock (document c) (cursor_position c)"

text \<open>
  \<open>cursor.selection().toPlainText()\<close>: the selected characters, block separators as
  line feeds and no-break spaces as spaces.
\<close>

definition selection_toPlainText :: "QTextCursor \<Rightarrow> string" where
  "selection_toPlainText c =
     nbsp_to_space
       (take (selectionEnd c - selectionStart c) (drop (selectionStart c) (plainText (document c))))"

text \<open>
  Text search is case-insensitive unless asked otherwise, and the source does not ask.
  Letters are compared after ASCII case folding, which is what decides a match against
  the marker the source searches for. \<open>indexOf txt sub offset\<close> is the first index at
  or after \<open>offset\<close> where \<open>sub\<close> occurs in \<open>txt\<close>.
\<close>

definition lower :: "char \<Rightarrow> char" where
  "lower c =
     (case map_of (zip ''ABCDEFGHIJKLMNOPQRSTUVWXYZ'' ''abcdefghijklmnopqrstuvwxyz'') c of
        None \<Rightarrow> c | Some l \<Rightarrow> l)"

definition occurs_at :: "string \<Rightarrow> string \<Rightarrow> bool" where
  "occurs_at sub s = (map lower (take (length sub) s) = map lower sub)"

fun index_from :: "string \<Rightarrow> string \<Rightarrow> nat \<Rightarrow> nat option" where
  "index_from sub [] i = (if sub = [] then Some i else None)"
| "index_from sub (c # cs) i =
     (if occurs_at sub (c # cs) then Some i else index_from sub cs (Suc i))"

definition indexOf :: "string \<Rightarrow> string \<Rightarrow> nat \<Rightarrow> nat option" where
  "indexOf txt sub offset =
     (if offset \<le> length txt then index_from sub (drop offset txt) offset else None)"

text \<open>
  \<open>document.find(sub, from)\<close>: the search starts in the block that holds \<open>from\<close>, at
  that offset, and goes on block by block; a match lies within one block, in whose text
  no-break spaces count as spaces. The cursor returned selects the match; \<open>None\<close> is
  the null cursor.
\<close>

fun find_in_blocks :: "string \<Rightarrow> nat \<Rightarrow> QTextBlock list \<Rightarrow> (nat \<times> nat) option" where
  "find_in_blocks sub from [] = None"
| "find_in_blocks sub from (b # bs) =
     (if position b + block_length b \<le> from then find_in_blocks sub from bs
      else (case indexOf (nbsp_to_space (text b)) sub (from - position b) of
              None \<Rightarrow> find_in_blocks sub from bs
            | Some idx \<Rightarrow> Some (position b + idx, position b + idx + length sub)))"

definition document_find :: "QTextDocument \<Rightarrow> string \<Rightarrow> nat \<Rightarrow> QTextCursor option" where
  "document_find doc sub from =
     (if sub = [] then None
      else (case find_in_blocks sub from (all_blocks doc) of
              None \<Rightarrow> None
            | Some (a, p) \<Rightarrow> Some \<lparr>document = doc, anchor = a, cursor_position = p\<rparr>))"

section \<open>The lexer: \<open>documentinfo\<close>\<close>

text \<open>
  The lexer is outside this module. For a document it gives the include path and, for a
  range of offsets, the arguments of the include directives and of the Scheme load
  directives found there.
\<close>

record range_info =
  include_args :: "string list"
  scheme_load_args :: "string list"

record docinfo =
  lydocinfo_range :: "nat \<Rightarrow> nat \<Rightarrow> range_info"
  includepath :: "string list"

type_synonym documentinfo = "QTextDocument \<Rightarrow> docinfo"

section \<open>Values and search path shared by the functions of the module\<close>

text \<open>
  The Python values the module returns or passes on: \<open>includeTarget\<close> returns a string
  or a list, the tooltip dictionaries hold an integer and a string, \<open>open_targets\<close>
  returns \<open>True\<close> or \<open>None\<close> and takes a window.
\<close>

datatype pyobject = PyNone | PyBool bool | PyInt int | PyStr string | PyList "string list"
  | PyMainWindow

text \<open>
  A dictionary with string keys keeps its items in insertion order; assigning to a key
  that is present replaces its value in place, assigning to a new key appends the item.
\<close>

type_synonym pydict = "(string \<times> pyobject) list"

definition setitem :: "pydict \<Rightarrow> string \<Rightarrow> pyobject \<Rightarrow> pydict" where
  "setitem d k v = AList.update k v d"

text \<open>
  The search path, built the same way by all three functions: the directory of the
  document when it has a local file name, then the include path of the lexer.
\<close>

definition search_path :: "string \<Rightarrow> docinfo \<Rightarrow> string list" where
  "search_path filename dinfo =
     (if filename \<noteq> [] then [os_path_dirname filename] else []) @ includepath dinfo"

section \<open>\<open>includeTarget\<close>\<close>

text \<open>The inner loop over the search path: a match is appended and the loop goes on.\<close>

fun includeTarget_path_loop ::
  "filesystem \<Rightarrow> string \<Rightarrow> string list \<Rightarrow> string list \<Rightarrow> string list" where
  "includeTarget_path_loop fs f [] targets = targets"
| "includeTarget_path_loop fs f (p # path) targets =
     (let name = os_path_normpath (os_path_join p f)
      in if os_path_exists fs name \<and> \<not> os_path_isdir fs name
         then includeTarget_path_loop fs f path (targets @ [name])
         else includeTarget_path_loop fs f path targets)"

fun includeTarget_loop ::
  "filesystem \<Rightarrow> string list \<Rightarrow> string list \<Rightarrow> string list \<Rightarrow> string list" where
  "includeTarget_loop fs path [] targets = targets"
| "includeTarget_loop fs path (f # fnames) targets =
     includeTarget_loop fs path fnames (includeTarget_path_loop fs f path targets)"

text \<open>The names the lexer finds in the cursor's block.\<close>

definition includeTarget_fnames :: "documentinfo \<Rightarrow> QTextCursor \<Rightarrow> string list" where
  "includeTarget_fnames info cursor =
     (let b = block cursor;
          start = position b;
          end = start + length (text b) + 1;
          dinfo = info (document cursor);
          i = lydocinfo_range dinfo start end
      in por (include_args i) (scheme_load_args i))"

definition includeTarget :: "filesystem \<Rightarrow> documentinfo \<Rightarrow> QTextCursor \<Rightarrow> pyobject" where
  "includeTarget fs info cursor =
     (let fnames = includeTarget_fnames info cursor;
          dinfo = info (document cursor)
      in if fnames = [] then PyStr []
         else
           let filename = toLocalFile (document cursor);
               path = search_path filename dinfo
           in PyList (includeTarget_loop fs path fnames []))"

section \<open>\<open>genToolTipInfo\<close>\<close>

definition include_marker :: string where
  "include_marker = CHR 0x5C # ''include''"

definition invalid_marker :: string where
  "invalid_marker = ''This is an invalid include file''"

text \<open>
  The two nested loops that fill \<open>info['content']\<close>: the loop over the search path
  stops at the first match, the loop over the names goes through all of them.
\<close>

fun genToolTipInfo_path_loop ::
  "filesystem \<Rightarrow> string \<Rightarrow> string list \<Rightarrow> pydict \<times> bool \<Rightarrow> pydict \<times> bool" where
  "genToolTipInfo_path_loop fs f [] (info, valid) = (info, valid)"
| "genToolTipInfo_path_loop fs f (p # path) (info, valid) =
     (let name = os_path_normpath (os_path_join p f)
      in if os_path_exists fs name \<and> \<not> os_path_isdir fs name
         then (setitem info ''content'' (PyStr name), True)
         else genToolTipInfo_path_loop fs f path (info, valid))"

fun genToolTipInfo_fnames_loop ::
  "filesystem \<Rightarrow> string list \<Rightarrow> string list \<Rightarrow> pydict \<times> bool \<Rightarrow> pydict \<times> bool" where
  "genToolTipInfo_fnames_loop fs path [] st = st"
| "genToolTipInfo_fnames_loop fs path (f # fnames) st =
     genToolTipInfo_fnames_loop fs path fnames (genToolTipInfo_path_loop fs f path st)"

text \<open>The dictionary built for one block whose names are \<open>fnames\<close>.\<close>

definition tooltip_info :: "filesystem \<Rightarrow> string list \<Rightarrow> QTextBlock \<Rightarrow> string list \<Rightarrow> pydict" where
  "tooltip_info fs path b fnames =
     (let info = setitem [] ''num'' (PyInt (blockNumber b));
          res = genToolTipInfo_fnames_loop fs path fnames (info, False)
      in if snd res = False then setitem (fst res) ''content'' (PyStr invalid_marker)
         else fst res)"

record scan_state =
  pointCursor :: "QTextCursor option"
  startIndex :: nat
  toolTipInfo :: "pydict list"

text \<open>The names the lexer finds in a block, over the block's whole range.\<close>

definition block_fnames :: "docinfo \<Rightarrow> QTextBlock \<Rightarrow> string list" where
  "block_fnames dinfo b =
     (let head = position b;
          tail = head + block_length b;
          i = lydocinfo_range dinfo head tail
      in por (include_args i) (scheme_load_args i))"

text \<open>
  The \<open>while\<close> loop. It may run forever, so it returns an option: \<open>None\<close> is the loop
  that never ends. On a block without names the source updates \<open>startIndex\<close> and
  continues, which leaves \<open>pointCursor\<close> as it is.
\<close>

partial_function (option) genToolTipInfo_while ::
  "filesystem \<Rightarrow> docinfo \<Rightarrow> QTextDocument \<Rightarrow> string list \<Rightarrow> scan_state \<Rightarrow> pydict list option"
where
  "genToolTipInfo_while fs dinfo doc path st =
     (case pointCursor st of
        None \<Rightarrow> Some (toolTipInfo st)
      | Some pc \<Rightarrow>
          let b = block pc;
              tail = position b + block_length b;
              fnames = block_fnames dinfo b
          in if fnames = []
             then genToolTipInfo_while fs dinfo doc path (st\<lparr>startIndex := tail\<rparr>)
             else genToolTipInfo_while fs dinfo doc path
                    \<lparr>pointCursor = document_find doc include_marker tail,
                     startIndex = tail,
                     toolTipInfo = toolTipInfo st @ [tooltip_info fs path b fnames]\<rparr>)"

declare genToolTipInfo_while.simps [code]

definition genToolTipInfo :: "filesystem \<Rightarrow> documentinfo \<Rightarrow> QTextCursor \<Rightarrow> pydict list option" where
  "genToolTipInfo fs info cursor =
     (let dinfo = info (document cursor);
          filename = toLocalFile (document cursor);
          path = search_path filename dinfo
      in genToolTipInfo_while fs dinfo (document cursor) path
           \<lparr>pointCursor = document_find (document cursor) include_marker 0,
            startIndex = 0,
            toolTipInfo = []\<rparr>)"

section \<open>\<open>filenames_at_cursor\<close>\<close>

text \<open>
  The range handed to the lexer: from the start of the block that holds the start of
  the selection to the end of the selection, or, without a selection, to one character
  past the text of the cursor's block.
\<close>

definition scan_range :: "QTextCursor \<Rightarrow> nat \<times> nat" where
  "scan_range cursor =
     (let start = position (findBlock (document cursor) (selectionStart cursor));
          end = (if \<not> hasSelection cursor
                 then start + length (text (block cursor)) + 1
                 else selectionEnd cursor)
      in (start, end))"

text \<open>The names taken at the cursor: the arguments the lexer finds, else the selected text.\<close>

definition cursor_fnames :: "documentinfo \<Rightarrow> QTextCursor \<Rightarrow> string list" where
  "cursor_fnames info cursor =
     (let dinfo = info (document cursor);
          i = lydocinfo_range dinfo (fst (scan_range cursor)) (snd (scan_range cursor));
          fnames = por (include_args i) (scheme_load_args i)
      in if fnames = [] \<and> hasSelection cursor
         then (let txt = selection_toPlainText cursor
               in if CHR 0x0A \<notin> set (strip txt) then [txt] else fnames)
         else fnames)"

text \<open>
  The inner loop over the search path: \<open>Some name\<close> when the loop breaks at a readable
  candidate, \<open>None\<close> when it runs to its end and the \<open>else\<close> clause takes over. An
  exception of \<open>os.access\<close> ends the loop and the function.
\<close>

fun try_include_paths :: "filesystem \<Rightarrow> string \<Rightarrow> string list \<Rightarrow> exception + string option" where
  "try_include_paths fs f [] = Inr None"
| "try_include_paths fs f (p # path) =
     (let name = os_path_normpath (os_path_join p f)
      in case os_access_R_OK fs name of
           Inl e \<Rightarrow> Inl e
         | Inr ok \<Rightarrow> if ok then Inr (Some name) else try_include_paths fs f path)"

fun find_all_docs ::
  "filesystem \<Rightarrow> string list \<Rightarrow> string \<Rightarrow> bool \<Rightarrow> string list \<Rightarrow> string list
     \<Rightarrow> exception + string list" where
  "find_all_docs fs path directory existing [] filenames = Inr filenames"
| "find_all_docs fs path directory existing (f # fnames) filenames =
     (case try_include_paths fs f path of
        Inl e \<Rightarrow> Inl e
      | Inr (Some name) \<Rightarrow>
          find_all_docs fs path directory existing fnames (filenames @ [name])
      | Inr None \<Rightarrow>
          find_all_docs fs path directory existing fnames
            (if \<not> existing
             then filenames @ [os_path_normpath (os_path_join directory f)]
             else filenames))"

definition filenames_at_cursor ::
  "filesystem \<Rightarrow> documentinfo \<Rightarrow> QTextCursor \<Rightarrow> bool \<Rightarrow> exception + string list" where
  "filenames_at_cursor fs info cursor existing =
     (let fnames = cursor_fnames info cursor;
          dinfo = info (document cursor);
          filename = toLocalFile (document cursor);
          directory = os_path_dirname filename;
          path = search_path filename dinfo
      in find_all_docs fs path directory existing fnames [])"

section \<open>\<open>open_file_at_cursor\<close> and \<open>open_targets\<close>\<close>

text \<open>
  What the window shows: the files opened so far, in order, and the document that has the
  focus in the browser.
\<close>

record host =
  opened :: "string list"
  currentDocument :: "string option"

text \<open>The loop of \<open>open_targets\<close>: every target is opened, \<open>d\<close> is the last document.\<close>

fun open_loop :: "string list \<Rightarrow> string option \<times> host \<Rightarrow> string option \<times> host" where
  "open_loop [] (d, h) = (d, h)"
| "open_loop (t # targets) (d, h) = open_loop targets (Some t, h\<lparr>opened := opened h @ [t]\<rparr>)"

text \<open>
  What a \<open>for\<close> loop over a value goes through: the items of a list, the characters
  of a string; the other values are not iterable.
\<close>

fun iterate :: "pyobject \<Rightarrow> exception + string list" where
  "iterate (PyList ts) = Inr ts"
| "iterate (PyStr s) = Inr (map (\<lambda>c. [c]) s)"
| "iterate v = Inl TypeError"

text \<open>
  \<open>open_targets(mainwindow, targets)\<close> as Python calls it: the positional arguments are
  bound to the two parameters, and a call with another number of arguments raises
  \<open>TypeError\<close> before the body runs. In the body, \<open>mainwindow.openUrl\<close> is looked up
  when the first target is opened, and only a window has it.
\<close>

fun open_targets :: "pyobject list \<Rightarrow> host \<Rightarrow> (exception + pyobject) \<times> host" where
  "open_targets [mainwindow, targets] h =
     (case iterate targets of
        Inl e \<Rightarrow> (Inl e, h)
      | Inr ts \<Rightarrow>
          if ts = [] then (Inr PyNone, h)
          else if mainwindow \<noteq> PyMainWindow then (Inl AttributeError, h)
          else (case open_loop ts (None, h) of
                  (None, h') \<Rightarrow> (Inr PyNone, h')
                | (Some d, h') \<Rightarrow> (Inr (PyBool True), h'\<lparr>currentDocument := Some d\<rparr>)))"
| "open_targets args h = (Inl TypeError, h)"

record mainwindow =
  textCursor :: QTextCursor

definition open_file_at_cursor ::
  "filesystem \<Rightarrow> documentinfo \<Rightarrow> mainwindow \<Rightarrow> QTextCursor option \<Rightarrow> host
     \<Rightarrow> (exception + pyobject) \<times> host" where
  "open_file_at_cursor fs info mainwindow cursor h =
     (let cursor = (case cursor of None \<Rightarrow> textCursor mainwindow | Some c \<Rightarrow> c)
      in case filenames_at_cursor fs info cursor True of
           Inl e \<Rightarrow> (Inl e, h)
         | Inr filenames \<Rightarrow> open_targets [PyList filenames] h)"

section \<open>Notions used to state the properties\<close>

text \<open>The candidate path of a name under a directory, as each loop computes it.\<close>

abbreviation candidate :: "string \<Rightarrow> string \<Rightarrow> string" where
  "candidate p f \<equiv> os_path_normpath (os_path_join p f)"

text \<open>
  What one name contributes to the result of \<open>filenames_at_cursor\<close>: the exception of
  its search, or the names it adds.
\<close>

definition name_result ::
  "filesystem \<Rightarrow> string list \<Rightarrow> string \<Rightarrow> bool \<Rightarrow> string \<Rightarrow> exception + string list" where
  "name_result fs path directory existing f =
     (case try_include_paths fs f path of
        Inl e \<Rightarrow> Inl e
      | Inr (Some name) \<Rightarrow> Inr [name]
      | Inr None \<Rightarrow> Inr (if existing then [] else [candidate directory f]))"

text \<open>
  Results in sequence: the first exception, if there is one, else all the names in
  order.
\<close>

fun collect :: "(exception + string list) list \<Rightarrow> exception + string list" where
  "collect [] = Inr []"
| "collect (r # rs) =
     (case r of
        Inl e \<Rightarrow> Inl e
      | Inr xs \<Rightarrow> (case collect rs of Inl e \<Rightarrow> Inl e | Inr ys \<Rightarrow> Inr (xs @ ys)))"

text \<open>A regular file: what \<open>includeTarget\<close> and \<open>genToolTipInfo\<close> accept.\<close>

definition is_file :: "filesystem \<Rightarrow> string \<Rightarrow> bool" where
  "is_file fs name = (os_path_exists fs name \<and> \<not> os_path_isdir fs name)"

text \<open>The result of the search for one name in \<open>genToolTipInfo\<close>: the first candidate along the
  search path that is a regular file.\<close>

definition first_match :: "filesystem \<Rightarrow> string list \<Rightarrow> string \<Rightarrow> string option" where
  "first_match fs path f = List.find (is_file fs) (map (\<lambda>p. candidate p f) path)"

text \<open>The content of the entry of a block with the names \<open>fnames\<close>: the result of the last name
  that has one, the invalid marker when no name has one.\<close>

definition entry_content :: "filesystem \<Rightarrow> string list \<Rightarrow> string list \<Rightarrow> string" where
  "entry_content fs path fnames =
     (let successes = List.map_filter (first_match fs path) fnames
      in if successes = [] then invalid_marker else last successes)"

text \<open>The text of a block holds the marker, as the text search finds it from offset 0.\<close>

definition has_marker :: "string \<Rightarrow> bool" where
  "has_marker t = (indexOf (nbsp_to_space t) include_marker 0 \<noteq> None)"

text \<open>The blocks of a document that hold the marker, in document order.\<close>

definition occurrences :: "QTextDocument \<Rightarrow> QTextBlock list" where
  "occurrences doc = filter (\<lambda>b. has_marker (text b)) (all_blocks doc)"

text \<open>A state of the scan whose cursor is in a block where the lexer finds no name.\<close>

definition stuck :: "docinfo \<Rightarrow> scan_state \<Rightarrow> bool" where
  "stuck dinfo st =
     (case pointCursor st of None \<Rightarrow> False | Some pc \<Rightarrow> block_fnames dinfo (block pc) = [])"

section \<open>Concrete documents, lexers and filesystems\<close>

text \<open>The text of a block that includes \<open>f\<close>: the marker, a space, the name in double quotes.\<close>

definition include_line :: "string \<Rightarrow> string" where
  "include_line f = include_marker @ '' '' @ [CHR 0x22] @ f @ [CHR 0x22]"

text \<open>A lexer given by a table: the include arguments of the range that starts at an offset.\<close>

definition table_info :: "(nat \<times> string list) list \<Rightarrow> string list \<Rightarrow> documentinfo" where
  "table_info table incpath doc =
     \<lparr>lydocinfo_range = (\<lambda>start end.
        \<lparr>include_args = (case map_of table start of None \<Rightarrow> [] | Some args \<Rightarrow> args),
         scheme_load_args = []\<rparr>),
      includepath = incpath\<rparr>"

text \<open>A filesystem with the given readable files and readable directories.\<close>

definition fs_of :: "string list \<Rightarrow> string list \<Rightarrow> filesystem" where
  "fs_of files dirs name =
     (if name \<in> set files then Some \<lparr>st_isdir = False, st_readable = True\<rparr>
      else if name \<in> set dirs then Some \<lparr>st_isdir = True, st_readable = True\<rparr>
      else None)"

definition violin_doc :: QTextDocument where
  "violin_doc =
     \<lparr>blocks = [include_line ''parts/violin.ly'', ''foo.ly''], toLocalFile = ''/proj/main.ly''\<rparr>"

definition violin_info :: documentinfo where
  "violin_info = table_info [(0, [''parts/violin.ly''])] [''/lib'']"

definition violin_cursor :: QTextCursor where
  "violin_cursor = \<lparr>document = violin_doc, anchor = 3, cursor_position = 3\<rparr>"

definition two_roots_fs :: filesystem where
  "two_roots_fs =
     fs_of [''/proj/parts/violin.ly'', ''/lib/parts/violin.ly'']
           [''/proj'', ''/proj/parts'', ''/lib'', ''/lib/parts'']"




definition empty_fs :: filesystem where
  "empty_fs = fs_of [] []"

definition parts_doc :: QTextDocument where
  "parts_doc = \<lparr>blocks = [include_line ''parts''], toLocalFile = ''/proj/main.ly''\<rparr>"

definition parts_cursor :: QTextCursor where
  "parts_cursor = \<lparr>document = parts_doc, anchor = 0, cursor_position = 0\<rparr>"

definition parts_info :: documentinfo where
  "parts_info = table_info [(0, [''parts''])] []"

definition parts_fs :: filesystem where
  "parts_fs = fs_of [''/proj/main.ly''] [''/proj'', ''/proj/parts'']"


definition plain_cursor :: QTextCursor where
  "plain_cursor = \<lparr>document = violin_doc, anchor = 30, cursor_position = 30\<rparr>"

definition no_lexer_info :: documentinfo where
  "no_lexer_info = table_info [] []"

definition example_window :: mainwindow where
  "example_window = \<lparr>textCursor = violin_cursor\<rparr>"

definition no_host :: host where
  "no_host = \<lparr>opened = [], currentDocument = None\<rparr>"

definition comment_doc :: QTextDocument where
  "comment_doc = \<lparr>blocks = [''% '' @ include_line ''old.ly''], toLocalFile = ''/proj/main.ly''\<rparr>"

definition comment_cursor :: QTextCursor where
  "comment_cursor = \<lparr>document = comment_doc, anchor = 0, cursor_position = 0\<rparr>"

definition null_doc :: QTextDocument where
  "null_doc = \<lparr>blocks = [include_line (''a'' @ [CHR 0x00] @ ''b.ly'')], toLocalFile = ''/proj/main.ly''\<rparr>"

definition null_info :: documentinfo where
  "null_info = table_info [(0, [''a'' @ [CHR 0x00] @ ''b.ly''])] []"

definition null_cursor :: QTextCursor where
  "null_cursor = \<lparr>document = null_doc, anchor = 0, cursor_position = 0\<rparr>"

definition null_window :: mainwindow where
  "null_window = \<lparr>textCursor = null_cursor\<rparr>"

definition trim_doc :: QTextDocument where
  "trim_doc =
     \<lparr>blocks = [include_line ''parts/violin.ly'', ''  foo.ly '', ''c4 d4''],
      toLocalFile = ''/proj/main.ly''\<rparr>"

definition padded_selection :: QTextCursor where
  "padded_selection = \<lparr>document = trim_doc, anchor = 27, cursor_position = 37\<rparr>"

definition two_block_selection :: QTextCursor where
  "two_block_selection = \<lparr>document = trim_doc, anchor = 39, cursor_position = 29\<rparr>"

definition caret_cursor :: QTextCursor where
  "caret_cursor = \<lparr>document = trim_doc, anchor = 30, cursor_position = 30\<rparr>"

definition nbsp_doc :: QTextDocument where
  "nbsp_doc = \<lparr>blocks = [''c4 d4'', ''my'' @ [CHR 0xA0] @ ''file.ly''], toLocalFile = ''/proj/main.ly''\<rparr>"

definition nbsp_selection :: QTextCursor where
  "nbsp_selection = \<lparr>document = nbsp_doc, anchor = 6, cursor_position = 16\<rparr>"

definition two_names_doc :: QTextDocument where
  "two_names_doc =
     \<lparr>blocks = [include_line ''missing.ly'',
                 include_line ''parts/violin.ly'' @ '' '' @ include_line ''nope.ly''],
      toLocalFile = ''/proj/main.ly''\<rparr>"

definition two_names_info :: documentinfo where
  "two_names_info =
     table_info [(0, [''missing.ly'']), (22, [''parts/violin.ly'', ''nope.ly''])] [''/lib'']"

definition two_names_cursor :: QTextCursor where
  "two_names_cursor = \<lparr>document = two_names_doc, anchor = 0, cursor_position = 0\<rparr>"

definition mixed_doc :: QTextDocument where
  "mixed_doc =
     \<lparr>blocks = [include_line ''parts/violin.ly'', ''% '' @ include_line ''old.ly''],
      toLocalFile = ''/proj/main.ly''\<rparr>"

definition mixed_cursor :: QTextCursor where
  "mixed_cursor = \<lparr>document = mixed_doc, anchor = 0, cursor_position = 0\<rparr>"

section \<open>Auxiliary facts about the loops\<close>

lemma includeTarget_path_loop_filter:
  "includeTarget_path_loop fs f path targets =
     targets @ filter (is_file fs) (map (\<lambda>p. candidate p f) path)"
  by (induction path arbitrary: targets) (simp_all add: Let_def is_file_def)

lemma includeTarget_loop_concat:
  "includeTarget_loop fs path fnames targets =
     targets @ concat (map (\<lambda>f. filter (is_file fs) (map (\<lambda>p. candidate p f) path)) fnames)"
  by (induction fnames arbitrary: targets) (simp_all add: includeTarget_path_loop_filter)

lemma path_loop_first_match:
  "genToolTipInfo_path_loop fs f path (info, valid) =
     (case first_match fs path f of
        None \<Rightarrow> (info, valid)
      | Some name \<Rightarrow> (setitem info ''content'' (PyStr name), True))"
  by (induction path) (simp_all add: first_match_def Let_def is_file_def)

lemma fnames_loop_last_success:
  "genToolTipInfo_fnames_loop fs path fnames (info, valid) =
     (let successes = List.map_filter (first_match fs path) fnames
      in if successes = [] then (info, valid)
         else (setitem info ''content'' (PyStr (last successes)), True))"
proof (induction fnames arbitrary: info valid)
  case Nil
  show ?case by (simp add: List.map_filter_simps)
next
  case (Cons f fnames)
  show ?case
  proof (cases "first_match fs path f")
    case None
    then show ?thesis
      by (simp add: path_loop_first_match Cons.IH List.map_filter_simps)
  next
    case (Some name)
    then show ?thesis
      by (simp add: path_loop_first_match Cons.IH List.map_filter_simps Let_def setitem_def)
  qed
qed

lemma tooltip_info_content:
  "tooltip_info fs path b fnames =
     [(''num'', PyInt (blockNumber b)), (''content'', PyStr (entry_content fs path fnames))]"
  by (simp add: tooltip_info_def fnames_loop_last_success Let_def setitem_def entry_content_def)

lemma first_match_first:
  "\<forall>p\<in>set ps. \<not> is_file fs (candidate p f) \<Longrightarrow> is_file fs (candidate d f) \<Longrightarrow>
     first_match fs (ps @ d # rest) f = Some (candidate d f)"
  by (induction ps) (simp_all add: first_match_def)

lemma first_match_None:
  "(first_match fs path f = None) = (\<forall>p\<in>set path. \<not> is_file fs (candidate p f))"
  by (simp add: first_match_def find_None_iff)

lemma entry_content_invalid:
  assumes "\<forall>f\<in>set fnames. first_match fs path f = None"
  shows "entry_content fs path fnames = invalid_marker"
proof -
  have "filter (\<lambda>f. first_match fs path f \<noteq> None) fnames = []"
    using assms by (simp add: filter_empty_conv)
  then show ?thesis
    by (simp add: entry_content_def List.map_filter_def)
qed

lemma entry_content_last:
  assumes "first_match fs path f = Some name"
    and "\<forall>g\<in>set ns2. first_match fs path g = None"
  shows "entry_content fs path (ns1 @ f # ns2) = name"
proof -
  have "filter (\<lambda>f. first_match fs path f \<noteq> None) ns2 = []"
    using assms(2) by (simp add: filter_empty_conv)
  then have "List.map_filter (first_match fs path) (ns1 @ f # ns2)
               = List.map_filter (first_match fs path) ns1 @ [name]"
    using assms(1) by (simp add: List.map_filter_def)
  then show ?thesis
    by (simp add: entry_content_def)
qed

lemma occurs_at_length: "occurs_at sub s \<Longrightarrow> length sub \<le> length s"
proof -
  assume "occurs_at sub s"
  then have "length (map lower (take (length sub) s)) = length (map lower sub)"
    unfolding occurs_at_def by simp
  then show ?thesis by simp
qed

lemma index_from_bounds:
  "index_from sub s i = Some idx \<Longrightarrow> i \<le> idx \<and> idx + length sub \<le> i + length s"
proof (induction s arbitrary: i)
  case Nil
  then show ?case by (simp split: if_splits)
next
  case (Cons c cs)
  show ?case
  proof (cases "occurs_at sub (c # cs)")
    case True
    with Cons.prems occurs_at_length [OF True] show ?thesis by simp
  next
    case False
    with Cons.prems have "index_from sub cs (Suc i) = Some idx" by simp
    from Cons.IH [OF this] show ?thesis by simp
  qed
qed

lemma indexOf_bounds:
  "indexOf t sub 0 = Some idx \<Longrightarrow> idx + length sub \<le> length t"
  using index_from_bounds [of sub t 0 idx] by (simp add: indexOf_def)

lemma blocks_from_position:
  "b \<in> set (blocks_from n pos ts) \<Longrightarrow> pos \<le> position b"
proof (induction ts arbitrary: n pos)
  case Nil
  then show ?case by simp
next
  case (Cons t ts)
  then show ?case by (fastforce dest: Cons.IH)
qed

lemma find_in_blocks_skip:
  "\<forall>b\<in>set pre. position b + block_length b \<le> from \<Longrightarrow>
     find_in_blocks sub from (pre @ bs) = find_in_blocks sub from bs"
  by (induction pre) simp_all

lemma find_block_in_skip:
  "\<forall>b\<in>set pre. position b + block_length b \<le> p \<Longrightarrow>
     find_block_in p (pre @ bs) = find_block_in p bs"
  by (induction pre) simp_all

lemma find_in_blocks_from_start:
  "\<forall>b\<in>set bs. from \<le> position b \<Longrightarrow> find_in_blocks sub from bs = find_in_blocks sub 0 bs"
  by (induction bs) (simp_all add: block_length_def split: option.split)

lemma stuck_loops:
  assumes "stuck dinfo st"
  shows "genToolTipInfo_while fs dinfo doc path st = None"
proof (cases "genToolTipInfo_while fs dinfo doc path st")
  case None
  then show ?thesis .
next
  case (Some y)
  have "\<not> stuck dinfo st"
  proof (rule genToolTipInfo_while.raw_induct
      [where P = "\<lambda>fs dinfo doc path st y. \<not> stuck dinfo st", OF _ Some])
    fix loop :: "filesystem \<Rightarrow> docinfo \<Rightarrow> QTextDocument \<Rightarrow> string list \<Rightarrow> scan_state \<Rightarrow> pydict list option"
    fix fs' dinfo' doc' path' st' y'
    assume IH: "\<And>fs dinfo doc path st y. loop fs dinfo doc path st = Some y \<Longrightarrow> \<not> stuck dinfo st"
    assume body: "(case pointCursor st' of
        None \<Rightarrow> Some (toolTipInfo st')
      | Some pc \<Rightarrow>
          let b = block pc;
              tail = position b + block_length b;
              fnames = block_fnames dinfo' b
          in if fnames = []
             then loop fs' dinfo' doc' path' (st'\<lparr>startIndex := tail\<rparr>)
             else loop fs' dinfo' doc' path'
                    \<lparr>pointCursor = document_find doc' include_marker tail,
                     startIndex = tail,
                     toolTipInfo = toolTipInfo st' @ [tooltip_info fs' path' b fnames]\<rparr>) = Some y'"
    show "\<not> stuck dinfo' st'"
    proof
      assume s: "stuck dinfo' st'"
      then obtain pc where pc: "pointCursor st' = Some pc" "block_fnames dinfo' (block pc) = []"
        by (auto simp: stuck_def split: option.splits)
      from body pc
      have "loop fs' dinfo' doc' path'
              (st'\<lparr>startIndex := position (block pc) + block_length (block pc)\<rparr>) = Some y'"
        by (simp add: Let_def)
      then have "\<not> stuck dinfo' (st'\<lparr>startIndex := position (block pc) + block_length (block pc)\<rparr>)"
        by (rule IH)
      with s show False by (simp add: stuck_def)
    qed
  qed
  with assms show ?thesis by simp
qed

lemma include_marker_nonempty: "include_marker \<noteq> []"
  by (simp add: include_marker_def)

lemma scan_suffix:
  assumes "all_blocks doc = pre @ blocks_from n pos ts"
    and "\<forall>b\<in>set pre. position b + block_length b \<le> pos"
  shows "genToolTipInfo_while fs dinfo doc path
           \<lparr>pointCursor = document_find doc include_marker pos, startIndex = s0, toolTipInfo = acc\<rparr>
         = (if \<forall>b\<in>set (blocks_from n pos ts). has_marker (text b) \<longrightarrow> block_fnames dinfo b \<noteq> []
            then Some (acc @ map (\<lambda>b. tooltip_info fs path b (block_fnames dinfo b))
                              (filter (\<lambda>b. has_marker (text b)) (blocks_from n pos ts)))
            else None)"
  using assms
proof (induction ts arbitrary: n pos pre s0 acc)
  case Nil
  have "find_in_blocks include_marker pos (pre @ []) = find_in_blocks include_marker pos []"
    using Nil.prems(2) by (rule find_in_blocks_skip)
  then have "document_find doc include_marker pos = None"
    using Nil.prems(1) by (simp add: document_find_def)
  then show ?case
    by (subst genToolTipInfo_while.simps) simp
next
  case (Cons t ts)
  let ?b = "\<lparr>blockNumber = n, position = pos, text = t\<rparr>"
  let ?pos' = "pos + length t + 1"
  let ?rest = "blocks_from (n + 1) ?pos' ts"
  have split: "all_blocks doc = pre @ ?b # ?rest"
    using Cons.prems(1) by simp
  have split': "all_blocks doc = (pre @ [?b]) @ ?rest"
    using Cons.prems(1) by simp
  have pre': "\<forall>b\<in>set (pre @ [?b]). position b + block_length b \<le> ?pos'"
    using Cons.prems(2) by (auto simp: block_length_def)
  note IH = Cons.IH [OF split' pre']
  have rest_pos: "\<forall>b\<in>set ?rest. ?pos' \<le> position b"
    by (auto dest: blocks_from_position)
  then have rest_pos0: "\<forall>b\<in>set ?rest. pos \<le> position b"
    by auto
  have find_next: "find_in_blocks include_marker ?pos' (all_blocks doc)
                     = find_in_blocks include_marker 0 ?rest"
    unfolding split'
    using find_in_blocks_skip [OF pre'] find_in_blocks_from_start [OF rest_pos] by simp
  have "find_in_blocks include_marker pos (all_blocks doc)
          = find_in_blocks include_marker pos (?b # ?rest)"
    unfolding split using Cons.prems(2) by (rule find_in_blocks_skip)
  then have find_here: "find_in_blocks include_marker pos (all_blocks doc)
      = (case indexOf (nbsp_to_space t) include_marker 0 of
           None \<Rightarrow> find_in_blocks include_marker 0 ?rest
         | Some idx \<Rightarrow> Some (pos + idx, pos + idx + length include_marker))"
    using find_in_blocks_from_start [OF rest_pos0, of include_marker]
    by (simp add: block_length_def split: option.split)
  show ?case
  proof (cases "indexOf (nbsp_to_space t) include_marker 0")
    case None
    then have nm: "\<not> has_marker t"
      by (simp add: has_marker_def)
    have "document_find doc include_marker pos = document_find doc include_marker ?pos'"
      using find_here find_next None by (simp add: document_find_def)
    then show ?thesis
      using IH [of s0 acc] nm by simp
  next
    case (Some idx)
    then have hm: "has_marker t"
      by (simp add: has_marker_def)
    let ?pc = "\<lparr>document = doc, anchor = pos + idx,
                cursor_position = pos + idx + length include_marker\<rparr>"
    have pc: "document_find doc include_marker pos = Some ?pc"
      using find_here Some by (simp add: document_find_def include_marker_nonempty)
    have "\<forall>b\<in>set pre. position b + block_length b \<le> pos + idx + length include_marker"
      using Cons.prems(2) by auto
    then have "find_block_in (pos + idx + length include_marker) (pre @ ?b # ?rest)
                 = find_block_in (pos + idx + length include_marker) (?b # ?rest)"
      by (rule find_block_in_skip)
    then have blk: "block ?pc = ?b"
      using indexOf_bounds [OF Some]
      by (simp add: block_def findBlock_def split block_length_def nbsp_to_space_def)
    show ?thesis
    proof (cases "block_fnames dinfo ?b = []")
      case True
      have "stuck dinfo \<lparr>pointCursor = document_find doc include_marker pos,
                         startIndex = s0, toolTipInfo = acc\<rparr>"
        using pc blk True by (simp add: stuck_def)
      then have "genToolTipInfo_while fs dinfo doc path
                   \<lparr>pointCursor = document_find doc include_marker pos,
                    startIndex = s0, toolTipInfo = acc\<rparr> = None"
        by (rule stuck_loops)
      then show ?thesis
        using hm True by auto
    next
      case False
      have step: "genToolTipInfo_while fs dinfo doc path
                    \<lparr>pointCursor = document_find doc include_marker pos,
                     startIndex = s0, toolTipInfo = acc\<rparr>
                  = genToolTipInfo_while fs dinfo doc path
                    \<lparr>pointCursor = document_find doc include_marker ?pos',
                     startIndex = ?pos',
                     toolTipInfo = acc @ [tooltip_info fs path ?b (block_fnames dinfo ?b)]\<rparr>"
        by (subst genToolTipInfo_while.simps) (simp add: pc blk False Let_def block_length_def)
      show ?thesis
        using IH [of ?pos' "acc @ [tooltip_info fs path ?b (block_fnames dinfo ?b)]"] hm False
        by (simp add: step)
    qed
  qed
qed

lemma genToolTipInfo_scan:
  "genToolTipInfo fs info cursor =
     (if \<forall>b\<in>set (occurrences (document cursor)). block_fnames (info (document cursor)) b \<noteq> []
      then Some (map (\<lambda>b. tooltip_info fs
                             (search_path (toLocalFile (document cursor)) (info (document cursor)))
                             b (block_fnames (info (document cursor)) b))
                     (occurrences (document cursor)))
      else None)"
proof -
  have "all_blocks (document cursor) = [] @ blocks_from 0 0 (blocks (document cursor))"
    by (simp add: all_blocks_def)
  from scan_suffix [OF this, of fs "info (document cursor)"
      "search_path (toLocalFile (document cursor)) (info (document cursor))" 0 "[]"]
  show ?thesis
    by (simp add: genToolTipInfo_def Let_def occurrences_def all_blocks_def)
qed

lemma scan_blocked:
  assumes "b \<in> set (occurrences (document cursor))"
    and "block_fnames (info (document cursor)) b = []"
  shows "genToolTipInfo fs info cursor = None"
  using assms by (auto simp: genToolTipInfo_scan)



lemma collect_returns:
  "\<forall>r\<in>set rs. \<exists>xs. r = Inr xs \<Longrightarrow> \<exists>ys. collect rs = Inr ys"
  by (induction rs) auto

lemma collect_raises:
  "collect rs = Inl e \<Longrightarrow> \<exists>r\<in>set rs. r = Inl e"
  by (induction rs) (auto split: sum.splits)

lemma collect_member:
  "collect rs = Inr ys \<Longrightarrow> x \<in> set ys \<Longrightarrow> \<exists>xs. Inr xs \<in> set rs \<and> x \<in> set xs"
proof (induction rs arbitrary: ys)
  case Nil
  then show ?case by simp
next
  case (Cons r rs)
  from Cons.prems(1) obtain xs zs where r: "r = Inr xs" and zs: "collect rs = Inr zs"
    and ys: "ys = xs @ zs"
    by (auto split: sum.splits)
  from Cons.prems(2) ys have "x \<in> set xs \<or> x \<in> set zs" by simp
  then show ?case
  proof
    assume "x \<in> set xs"
    with r show ?thesis by auto
  next
    assume "x \<in> set zs"
    from Cons.IH [OF zs this] show ?thesis by auto
  qed
qed

lemma find_all_docs_acc:
  "find_all_docs fs path directory existing fnames acc =
     (case collect (map (name_result fs path directory existing) fnames) of
        Inl e \<Rightarrow> Inl e
      | Inr ys \<Rightarrow> Inr (acc @ ys))"
proof (induction fnames arbitrary: acc)
  case Nil
  show ?case by simp
next
  case (Cons f fnames)
  show ?case
  proof (cases "try_include_paths fs f path")
    case (Inl e)
    then show ?thesis by (simp add: name_result_def)
  next
    case (Inr r)
    then show ?thesis
      by (cases r) (simp_all add: name_result_def Cons.IH split: sum.split)
  qed
qed

lemma find_all_docs_collect:
  "find_all_docs fs path directory existing fnames [] =
     collect (map (name_result fs path directory existing) fnames)"
  by (simp add: find_all_docs_acc split: sum.split)



lemma try_include_paths_Some:
  "try_include_paths fs f path = Inr (Some name) \<Longrightarrow>
     os_access_R_OK fs name = Inr True \<and> (\<exists>p\<in>set path. name = candidate p f)"
  by (induction path) (auto simp: Let_def split: if_splits sum.splits)

lemma try_include_paths_returns:
  "\<forall>p\<in>set path. \<not> embedded_null (candidate p f) \<Longrightarrow> \<exists>r. try_include_paths fs f path = Inr r"
  by (induction path) (auto simp: Let_def os_access_R_OK_def)

lemma try_include_paths_raises:
  "try_include_paths fs f path = Inl e \<Longrightarrow> e = ValueError"
  by (induction path) (auto simp: Let_def os_access_R_OK_def split: if_splits sum.splits)

lemma access_exists: "os_access_R_OK fs name = Inr True \<Longrightarrow> os_path_exists fs name"
  by (auto simp: os_access_R_OK_def os_path_exists_def split: option.splits if_splits)


lemma split_sep_chars: "w \<in> set (split_sep s) \<Longrightarrow> set w \<subseteq> set s"
proof (induction s arbitrary: w)
  case Nil
  then show ?case by simp
next
  case (Cons c cs)
  show ?case
  proof (cases "c = CHR ''/''")
    case True
    with Cons.prems have "w = [] \<or> w \<in> set (split_sep cs)" by auto
    then show ?thesis using Cons.IH by auto
  next
    case False
    show ?thesis
    proof (cases "split_sep cs")
      case Nil
      with False Cons.prems show ?thesis by simp
    next
      case (Cons v vs)
      with False Cons.prems have "w = c # v \<or> w \<in> set vs" by auto
      moreover have "set v \<subseteq> set cs" "\<And>x. x \<in> set vs \<Longrightarrow> set x \<subseteq> set cs"
        using Cons.IH Cons by auto
      ultimately show ?thesis by auto
    qed
  qed
qed

lemma norm_comps_subset: "set (norm_comps i comps acc) \<subseteq> set comps \<union> set acc"
proof (induction comps arbitrary: acc)
  case Nil
  show ?case by simp
next
  case (Cons c comps)
  have "set (butlast acc) \<subseteq> set acc"
    by (auto dest: in_set_butlastD)
  then show ?case
    using Cons.IH [of acc] Cons.IH [of "acc @ [c]"] Cons.IH [of "butlast acc"]
    by (simp only: norm_comps.simps split: if_split) auto
qed

lemma sep_join_chars: "set (sep_join cs) \<subseteq> (\<Union>w\<in>set cs. set w) \<union> {CHR ''/''}"
  by (induction cs rule: sep_join.induct) auto

lemma normpath_chars: "set (os_path_normpath s) \<subseteq> set s \<union> {CHR ''/'', CHR ''.''}"
proof -
  have "(\<Union>w\<in>set (norm_comps i (split_sep s) []). set w) \<subseteq> set s" for i
    using norm_comps_subset [of i "split_sep s" "[]"] split_sep_chars [of _ s] by auto
  then have "set (sep_join (norm_comps i (split_sep s) [])) \<subseteq> set s \<union> {CHR ''/''}" for i
    using sep_join_chars [of "norm_comps i (split_sep s) []"] by blast
  then show ?thesis
    by (auto simp: os_path_normpath_def Let_def)
qed

lemma join_chars: "set (os_path_join a b) \<subseteq> set a \<union> set b \<union> {CHR ''/''}"
  by (auto simp: os_path_join_def)

lemma candidate_null:
  "embedded_null (candidate p f) \<Longrightarrow> embedded_null p \<or> embedded_null f"
  using normpath_chars [of "os_path_join p f"] join_chars [of p f]
  by (auto simp: embedded_null_def)

lemma name_result_returns:
  "\<not> embedded_null f \<Longrightarrow> \<forall>p\<in>set path. \<not> embedded_null p \<Longrightarrow>
     \<exists>r. name_result fs path directory existing f = Inr r"
proof -
  assume "\<not> embedded_null f" "\<forall>p\<in>set path. \<not> embedded_null p"
  then have "\<forall>p\<in>set path. \<not> embedded_null (candidate p f)"
    by (auto dest: candidate_null)
  then obtain r where "try_include_paths fs f path = Inr r"
    using try_include_paths_returns by blast
  then show ?thesis
    by (cases r) (simp_all add: name_result_def)
qed

lemma filenames_at_cursor_returns:
  assumes "\<forall>f\<in>set (cursor_fnames info cursor). \<not> embedded_null f"
    and "\<forall>p\<in>set (search_path (toLocalFile (document cursor)) (info (document cursor))).
           \<not> embedded_null p"
  shows "\<exists>r. filenames_at_cursor fs info cursor existing = Inr r"
proof -
  have "\<exists>ys. collect (map (name_result fs
          (search_path (toLocalFile (document cursor)) (info (document cursor)))
          (os_path_dirname (toLocalFile (document cursor))) existing)
          (cursor_fnames info cursor)) = Inr ys"
    using assms by (intro collect_returns) (auto intro: name_result_returns)
  then show ?thesis
    by (simp add: filenames_at_cursor_def Let_def find_all_docs_collect)
qed

lemma filenames_at_cursor_raises:
  "filenames_at_cursor fs info cursor existing = Inl e \<Longrightarrow> e = ValueError"
  by (auto simp: filenames_at_cursor_def Let_def find_all_docs_collect name_result_def
      dest!: collect_raises try_include_paths_raises split: sum.splits option.splits)

lemma filenames_at_cursor_existing_readable:
  assumes "filenames_at_cursor fs info cursor True = Inr names" and "name \<in> set names"
  shows "os_access_R_OK fs name = Inr True \<and> os_path_exists fs name"
proof -
  let ?path = "search_path (toLocalFile (document cursor)) (info (document cursor))"
  let ?dir = "os_path_dirname (toLocalFile (document cursor))"
  have "collect (map (name_result fs ?path ?dir True) (cursor_fnames info cursor)) = Inr names"
    using assms(1) by (simp add: filenames_at_cursor_def Let_def find_all_docs_collect)
  from collect_member [OF this assms(2)]
  obtain f xs where "name_result fs ?path ?dir True f = Inr xs" and "name \<in> set xs"
    by (auto dest: sym)
  then have "try_include_paths fs f ?path = Inr (Some name)"
    by (auto simp: name_result_def split: sum.splits option.splits)
  then have "os_access_R_OK fs name = Inr True"
    by (auto dest: try_include_paths_Some)
  then show ?thesis by (simp add: access_exists)
qed

lemma strip_decomposed:
  assumes "\<forall>c\<in>set pre. isspace c" and "\<forall>c\<in>set post. isspace c"
    and "mid = [] \<or> (\<not> isspace (hd mid) \<and> \<not> isspace (last mid))"
  shows "strip (pre @ mid @ post) = mid"
proof (cases "mid = []")
  case True
  then have "\<forall>c\<in>set (pre @ mid @ post). isspace c"
    using assms(1,2) by auto
  then have d: "dropWhile isspace (pre @ mid @ post) = []"
    by (simp only: dropWhile_eq_Nil_conv)
  show ?thesis
    unfolding strip_def d using True by simp
next
  case False
  with assms(3) have h: "\<not> isspace (hd mid)" and l: "\<not> isspace (last mid)" by auto
  have "dropWhile isspace (pre @ mid @ post) = dropWhile isspace (mid @ post)"
    using assms(1) by (simp add: dropWhile_append2)
  also have "\<dots> = mid @ post"
    using False h by (cases mid) simp_all
  finally have 1: "dropWhile isspace (pre @ mid @ post) = mid @ post" .
  have "dropWhile isspace (rev post @ rev mid) = dropWhile isspace (rev mid)"
  proof (rule dropWhile_append2)
    fix c assume "c \<in> set (rev post)"
    with assms(2) show "isspace c" by simp
  qed
  also have "\<dots> = rev mid"
    using False l by (cases "rev mid") (auto simp: hd_rev [symmetric] dest: arg_cong [where f = hd])
  finally show ?thesis
    by (simp add: strip_def 1)
qed

lemma strip_decomposition:
  "\<exists>pre post. s = pre @ strip s @ post \<and> (\<forall>c\<in>set pre. isspace c) \<and> (\<forall>c\<in>set post. isspace c)
     \<and> (strip s = [] \<or> (\<not> isspace (hd (strip s)) \<and> \<not> isspace (last (strip s))))"
proof -
  let ?r = "dropWhile isspace s"
  let ?pre = "takeWhile isspace s"
  let ?post = "rev (takeWhile isspace (rev ?r))"
  have r: "?r = strip s @ ?post"
  proof -
    have "rev (rev ?r)
            = rev (dropWhile isspace (rev ?r)) @ rev (takeWhile isspace (rev ?r))"
      using rev_append [of "takeWhile isspace (rev ?r)" "dropWhile isspace (rev ?r)"]
      by (simp only: takeWhile_dropWhile_id)
    then show ?thesis by (simp only: rev_rev_ident strip_def)
  qed
  have s: "s = ?pre @ strip s @ ?post"
    using r takeWhile_dropWhile_id [of isspace s] by simp
  have pre: "\<forall>c\<in>set ?pre. isspace c"
    by (auto dest: set_takeWhileD)
  have post: "\<forall>c\<in>set ?post. isspace c"
    by (auto dest: set_takeWhileD)
  have ends: "strip s = [] \<or> (\<not> isspace (hd (strip s)) \<and> \<not> isspace (last (strip s)))"
  proof (cases "strip s = []")
    case True
    then show ?thesis by simp
  next
    case False
    then have ne: "dropWhile isspace (rev ?r) \<noteq> []" by (simp add: strip_def)
    then have "\<not> isspace (hd (dropWhile isspace (rev ?r)))" by (rule hd_dropWhile)
    then have l: "\<not> isspace (last (strip s))"
      using ne by (simp add: strip_def last_rev)
    from False r have "?r \<noteq> []" by (metis append_is_Nil_conv)
    then have "\<not> isspace (hd ?r)" by (rule hd_dropWhile)
    moreover have "hd ?r = hd (strip s)"
      using False by (subst r) simp
    ultimately show ?thesis using l by simp
  qed
  from s pre post ends show ?thesis by blast
qed

section \<open>The scan does not return from a block without names\<close>

text \<open>
  Claim C1 says that the scan of \<open>genToolTipInfo\<close> terminates for every document and
  that an occurrence without names is skipped. The code does otherwise: for a block that
  holds the marker and in which the lexer finds no name, the loop sets \<open>startIndex\<close>
  and continues without searching again, so the cursor stays in that block and the
  function never returns.
\<close>

theorem genToolTipInfo_hangs:
  assumes "b \<in> set (occurrences (document cursor))"
    and "block_fnames (info (document cursor)) b = []"
  shows "genToolTipInfo fs info cursor = None"
  using assms by (auto simp: genToolTipInfo_scan)

theorem genToolTipInfo_hangs_witness:
  "genToolTipInfo empty_fs no_lexer_info comment_cursor = None"
proof -
  have o: "occurrences (document comment_cursor)
             = [\<lparr>blockNumber = 0, position = 0, text = ''% '' @ include_line ''old.ly''\<rparr>]"
    by code_simp
  have n: "block_fnames (no_lexer_info (document comment_cursor))
             \<lparr>blockNumber = 0, position = 0, text = ''% '' @ include_line ''old.ly''\<rparr> = []"
    by code_simp
  show ?thesis
    using genToolTipInfo_hangs [where info = no_lexer_info and cursor = comment_cursor
        and fs = empty_fs, OF _ n]
    by (simp add: o)
qed

section \<open>Which directory wins in the scan\<close>

text \<open>
  Claim C2, as stated, fails: the loop over the search path breaks at the first match.
  With the same file under \<open>/proj\<close> and under \<open>/lib\<close>, in this order on the search path,
  the content of the entry is the candidate under \<open>/proj\<close>, not the one under the later
  directory \<open>/lib\<close>.
\<close>

theorem genToolTipInfo_last_root_counterexample:
  "search_path (toLocalFile (document violin_cursor)) (violin_info (document violin_cursor))
     = [''/proj'', ''/lib'']
   \<and> is_file two_roots_fs (candidate ''/proj'' ''parts/violin.ly'')
   \<and> is_file two_roots_fs (candidate ''/lib'' ''parts/violin.ly'')
   \<and> candidate ''/lib'' ''parts/violin.ly'' = ''/lib/parts/violin.ly''
   \<and> genToolTipInfo two_roots_fs violin_info violin_cursor
       = Some [[(''num'', PyInt 0), (''content'', PyStr ''/proj/parts/violin.ly'')]]
   \<and> genToolTipInfo two_roots_fs violin_info violin_cursor
       \<noteq> Some [[(''num'', PyInt 0), (''content'', PyStr (candidate ''/lib'' ''parts/violin.ly''))]]"
  by code_simp

text \<open>
  Claim C2, amended. For a name, the loop over the search path stops at the first
  directory under which the candidate is an existing file that is not a directory, as in
  cursor mode. The content of the entry of a block is that candidate of the last name of
  the block that resolves, whatever names without a match follow it. When the scan
  returns, which it does when the lexer finds names in every block that holds the
  marker, its list holds that entry at the place of the block among the occurrences.
\<close>

theorem genToolTipInfo_first_root_wins:
  assumes "search_path (toLocalFile (document cursor)) (info (document cursor)) = ps @ d # rest"
    and "\<forall>p\<in>set ps. \<not> is_file fs (candidate p f)"
    and "is_file fs (candidate d f)"
    and "\<forall>g\<in>set ms. \<forall>p\<in>set (ps @ d # rest). \<not> is_file fs (candidate p g)"
  shows "genToolTipInfo_path_loop fs f (ps @ d # rest) (dict, valid)
           = (setitem dict ''content'' (PyStr (candidate d f)), True)
         \<and> tooltip_info fs (ps @ d # rest) b (ns @ f # ms)
           = [(''num'', PyInt (blockNumber b)), (''content'', PyStr (candidate d f))]
         \<and> ((\<forall>b'\<in>set (occurrences (document cursor)).
                 block_fnames (info (document cursor)) b' \<noteq> [])
              \<and> occurrences (document cursor) = bs @ b # cs
              \<and> block_fnames (info (document cursor)) b = ns @ f # ms
            \<longrightarrow> genToolTipInfo fs info cursor
                = Some (map (\<lambda>b'. tooltip_info fs (ps @ d # rest) b'
                                     (block_fnames (info (document cursor)) b')) bs
                        @ [[(''num'', PyInt (blockNumber b)), (''content'', PyStr (candidate d f))]]
                        @ map (\<lambda>b'. tooltip_info fs (ps @ d # rest) b'
                                       (block_fnames (info (document cursor)) b')) cs))"
proof -
  have fm: "first_match fs (ps @ d # rest) f = Some (candidate d f)"
    using assms(2,3) by (rule first_match_first)
  have "\<forall>g\<in>set ms. first_match fs (ps @ d # rest) g = None"
    using assms(4) by (simp add: first_match_None)
  with fm have ec: "entry_content fs (ps @ d # rest) (ns @ f # ms) = candidate d f"
    by (rule entry_content_last)
  have one: "genToolTipInfo_path_loop fs f (ps @ d # rest) (dict, valid)
           = (setitem dict ''content'' (PyStr (candidate d f)), True)"
    using fm by (simp add: path_loop_first_match)
  have two: "tooltip_info fs (ps @ d # rest) b (ns @ f # ms)
           = [(''num'', PyInt (blockNumber b)), (''content'', PyStr (candidate d f))]"
    using ec by (simp only: tooltip_info_content)
  have three: "(\<forall>b'\<in>set (occurrences (document cursor)).
                 block_fnames (info (document cursor)) b' \<noteq> [])
              \<and> occurrences (document cursor) = bs @ b # cs
              \<and> block_fnames (info (document cursor)) b = ns @ f # ms
            \<longrightarrow> genToolTipInfo fs info cursor
                = Some (map (\<lambda>b'. tooltip_info fs (ps @ d # rest) b'
                                     (block_fnames (info (document cursor)) b')) bs
                        @ [[(''num'', PyInt (blockNumber b)), (''content'', PyStr (candidate d f))]]
                        @ map (\<lambda>b'. tooltip_info fs (ps @ d # rest) b'
                                       (block_fnames (info (document cursor)) b')) cs)"
  proof
    assume h: "(\<forall>b'\<in>set (occurrences (document cursor)).
                 block_fnames (info (document cursor)) b' \<noteq> [])
              \<and> occurrences (document cursor) = bs @ b # cs
              \<and> block_fnames (info (document cursor)) b = ns @ f # ms"
    then have "genToolTipInfo fs info cursor
        = Some (map (\<lambda>b'. tooltip_info fs (ps @ d # rest) b'
                             (block_fnames (info (document cursor)) b')) (bs @ b # cs))"
      using assms(1) by (simp add: genToolTipInfo_scan)
    with h two show "genToolTipInfo fs info cursor
                = Some (map (\<lambda>b'. tooltip_info fs (ps @ d # rest) b'
                                     (block_fnames (info (document cursor)) b')) bs
                        @ [[(''num'', PyInt (blockNumber b)), (''content'', PyStr (candidate d f))]]
                        @ map (\<lambda>b'. tooltip_info fs (ps @ d # rest) b'
                                       (block_fnames (info (document cursor)) b')) cs)"
      by simp
  qed
  from one two three show ?thesis by blast
qed

theorem genToolTipInfo_first_root_wins_witness:
  "genToolTipInfo two_roots_fs two_names_info two_names_cursor
     = Some [[(''num'', PyInt 0), (''content'', PyStr invalid_marker)],
             [(''num'', PyInt 1), (''content'', PyStr ''/proj/parts/violin.ly'')]]"
proof -
  let ?b0 = "\<lparr>blockNumber = 0, position = 0, text = include_line ''missing.ly''\<rparr>"
  let ?b1 = "\<lparr>blockNumber = 1, position = 22,
              text = include_line ''parts/violin.ly'' @ '' '' @ include_line ''nope.ly''\<rparr>"
  have sp: "search_path (toLocalFile (document two_names_cursor))
              (two_names_info (document two_names_cursor)) = [] @ ''/proj'' # [''/lib'']"
    by code_simp
  have c: "candidate ''/proj'' ''parts/violin.ly'' = ''/proj/parts/violin.ly''"
    by code_simp
  have f: "is_file two_roots_fs (candidate ''/proj'' ''parts/violin.ly'')"
    by code_simp
  have u: "\<forall>g\<in>set [''nope.ly'']. \<forall>p\<in>set ([] @ ''/proj'' # [''/lib'']).
             \<not> is_file two_roots_fs (candidate p g)"
    by code_simp
  have o: "occurrences (document two_names_cursor) = [?b0] @ ?b1 # []"
    by code_simp
  have n: "block_fnames (two_names_info (document two_names_cursor)) ?b0 = [''missing.ly'']"
    "block_fnames (two_names_info (document two_names_cursor)) ?b1
       = [] @ ''parts/violin.ly'' # [''nope.ly'']"
    by code_simp+
  have t: "tooltip_info two_roots_fs [''/proj'', ''/lib''] ?b0 [''missing.ly'']
             = [(''num'', PyInt 0), (''content'', PyStr invalid_marker)]"
    by code_simp
  have "genToolTipInfo two_roots_fs two_names_info two_names_cursor
          = Some (map (\<lambda>b'. tooltip_info two_roots_fs ([] @ ''/proj'' # [''/lib'']) b'
                                (block_fnames (two_names_info (document two_names_cursor)) b')) [?b0]
                  @ [[(''num'', PyInt (blockNumber ?b1)),
                      (''content'', PyStr (candidate ''/proj'' ''parts/violin.ly''))]]
                  @ map (\<lambda>b'. tooltip_info two_roots_fs ([] @ ''/proj'' # [''/lib'']) b'
                                  (block_fnames (two_names_info (document two_names_cursor)) b')) [])"
    using genToolTipInfo_first_root_wins [where info = two_names_info and cursor = two_names_cursor
        and fs = two_roots_fs and ns = "[]" and ms = "[''nope.ly'']" and b = ?b1
        and bs = "[?b0]" and cs = "[]", OF sp _ f u] o n
    by simp
  then show ?thesis
    by (simp add: n t c)
qed

section \<open>First match wins in \<open>filenames_at_cursor\<close>\<close>



section \<open>Names that match no directory\<close>




section \<open>\<open>filenames_at_cursor\<close> returns a directory\<close>

text \<open>
  Claim C5 says that a path returned for \<open>existing=True\<close> exists and is not a
  directory. The code tests \<open>os.access(name, os.R_OK)\<close> only, which a readable
  directory passes: for an include of \<open>parts\<close> in \<open>/proj/main.ly\<close> with the directory
  \<open>/proj/parts\<close> on disk, \<open>filenames_at_cursor\<close> returns that directory, where
  \<open>includeTarget\<close> returns no target and \<open>genToolTipInfo\<close> marks the include invalid.
\<close>

theorem filenames_at_cursor_returns_directory:
  "filenames_at_cursor parts_fs parts_info parts_cursor True = Inr [''/proj/parts'']
   \<and> os_path_isdir parts_fs ''/proj/parts''
   \<and> includeTarget parts_fs parts_info parts_cursor = PyList []
   \<and> genToolTipInfo parts_fs parts_info parts_cursor
       = Some [[(''num'', PyInt 0), (''content'', PyStr invalid_marker)]]"
  by code_simp

section \<open>The selection as a name\<close>

text \<open>
  Claim C6, as stated, fails: the name is not the raw selected text but its plain text,
  in which a no-break space has become a space. Selecting \<open>my file.ly\<close> written with a
  no-break space gives the name with a space.
\<close>

theorem cursor_fnames_raw_text_counterexample:
  "include_args (lydocinfo_range (no_lexer_info (document nbsp_selection))
      (fst (scan_range nbsp_selection)) (snd (scan_range nbsp_selection))) = []
   \<and> scheme_load_args (lydocinfo_range (no_lexer_info (document nbsp_selection))
      (fst (scan_range nbsp_selection)) (snd (scan_range nbsp_selection))) = []
   \<and> hasSelection nbsp_selection
   \<and> take (selectionEnd nbsp_selection - selectionStart nbsp_selection)
        (drop (selectionStart nbsp_selection) (plainText (document nbsp_selection)))
       = ''my'' @ [CHR 0xA0] @ ''file.ly''
   \<and> cursor_fnames no_lexer_info nbsp_selection = [''my file.ly'']
   \<and> cursor_fnames no_lexer_info nbsp_selection \<noteq> [''my'' @ [CHR 0xA0] @ ''file.ly'']"
  by code_simp

text \<open>
  Claim C6, amended. Let the lexer find neither include arguments nor Scheme load
  arguments in the scan range, and let \<open>sel\<close> be the plain text of the selection: the
  characters of the document between the start and the end of the selection, block
  separators as line feeds and no-break spaces as spaces. Split \<open>sel\<close> into leading
  whitespace, a middle part that is empty or begins and ends with a character that is not
  whitespace, and trailing whitespace; such a split exists. The names at the cursor are
  \<open>sel\<close> alone, untrimmed, when anchor and position of the cursor differ and the middle
  part holds no line feed; they are empty in every other such case.
\<close>

theorem cursor_fnames_selection_fallback:
  assumes "include_args (lydocinfo_range (info (document cursor))
              (fst (scan_range cursor)) (snd (scan_range cursor))) = []"
    and "scheme_load_args (lydocinfo_range (info (document cursor))
              (fst (scan_range cursor)) (snd (scan_range cursor))) = []"
    and "sel = nbsp_to_space
                 (take (selectionEnd cursor - selectionStart cursor)
                    (drop (selectionStart cursor) (lines_join (blocks (document cursor)))))"
  shows "(sel = pre @ mid @ post \<and> (\<forall>c\<in>set pre. isspace c) \<and> (\<forall>c\<in>set post. isspace c)
            \<and> (mid = [] \<or> (\<not> isspace (hd mid) \<and> \<not> isspace (last mid))) \<longrightarrow>
            cursor_fnames info cursor =
              (if anchor cursor \<noteq> cursor_position cursor \<and> CHR 0x0A \<notin> set mid
               then [sel] else []))
         \<and> (\<exists>pre' mid' post'.
               sel = pre' @ mid' @ post' \<and> (\<forall>c\<in>set pre'. isspace c) \<and> (\<forall>c\<in>set post'. isspace c)
               \<and> (mid' = [] \<or> (\<not> isspace (hd mid') \<and> \<not> isspace (last mid')))
               \<and> cursor_fnames info cursor =
                   (if anchor cursor \<noteq> cursor_position cursor \<and> CHR 0x0A \<notin> set mid'
                    then [sel] else []))"
proof -
  have sel: "selection_toPlainText cursor = sel"
    using assms(3) by (simp add: selection_toPlainText_def plainText_def)
  have eq: "cursor_fnames info cursor =
              (if anchor cursor \<noteq> cursor_position cursor \<and> CHR 0x0A \<notin> set (strip sel)
               then [sel] else [])"
    using assms(1,2) by (simp add: cursor_fnames_def por_def Let_def sel hasSelection_def)
  have one: "sel = pre @ mid @ post \<and> (\<forall>c\<in>set pre. isspace c) \<and> (\<forall>c\<in>set post. isspace c)
            \<and> (mid = [] \<or> (\<not> isspace (hd mid) \<and> \<not> isspace (last mid))) \<longrightarrow>
            cursor_fnames info cursor =
              (if anchor cursor \<noteq> cursor_position cursor \<and> CHR 0x0A \<notin> set mid
               then [sel] else [])"
  proof
    assume h: "sel = pre @ mid @ post \<and> (\<forall>c\<in>set pre. isspace c) \<and> (\<forall>c\<in>set post. isspace c)
            \<and> (mid = [] \<or> (\<not> isspace (hd mid) \<and> \<not> isspace (last mid)))"
    then have "strip sel = mid"
      using strip_decomposed [of pre post mid] by blast
    then show "cursor_fnames info cursor =
              (if anchor cursor \<noteq> cursor_position cursor \<and> CHR 0x0A \<notin> set mid
               then [sel] else [])"
      by (simp only: eq)
  qed
  from strip_decomposition [of sel] obtain pre' post' where
    "sel = pre' @ strip sel @ post'" "\<forall>c\<in>set pre'. isspace c" "\<forall>c\<in>set post'. isspace c"
    "strip sel = [] \<or> (\<not> isspace (hd (strip sel)) \<and> \<not> isspace (last (strip sel)))"
    by blast
  with eq have two: "\<exists>pre' mid' post'.
               sel = pre' @ mid' @ post' \<and> (\<forall>c\<in>set pre'. isspace c) \<and> (\<forall>c\<in>set post'. isspace c)
               \<and> (mid' = [] \<or> (\<not> isspace (hd mid') \<and> \<not> isspace (last mid')))
               \<and> cursor_fnames info cursor =
                   (if anchor cursor \<noteq> cursor_position cursor \<and> CHR 0x0A \<notin> set mid'
                    then [sel] else [])"
    by blast
  from one two show ?thesis by blast
qed

theorem cursor_fnames_selection_fallback_witness:
  "cursor_fnames violin_info padded_selection = [''  foo.ly '' @ [CHR 0x0A]]
   \<and> cursor_fnames violin_info two_block_selection = []
   \<and> cursor_fnames violin_info caret_cursor = []
   \<and> cursor_fnames no_lexer_info nbsp_selection = [''my file.ly'']"
proof -
  have l1: "include_args (lydocinfo_range (violin_info (document padded_selection))
              (fst (scan_range padded_selection)) (snd (scan_range padded_selection))) = []"
           "scheme_load_args (lydocinfo_range (violin_info (document padded_selection))
              (fst (scan_range padded_selection)) (snd (scan_range padded_selection))) = []"
    by code_simp+
  have l2: "include_args (lydocinfo_range (violin_info (document two_block_selection))
              (fst (scan_range two_block_selection)) (snd (scan_range two_block_selection))) = []"
           "scheme_load_args (lydocinfo_range (violin_info (document two_block_selection))
              (fst (scan_range two_block_selection)) (snd (scan_range two_block_selection))) = []"
    by code_simp+
  have l3: "include_args (lydocinfo_range (violin_info (document caret_cursor))
              (fst (scan_range caret_cursor)) (snd (scan_range caret_cursor))) = []"
           "scheme_load_args (lydocinfo_range (violin_info (document caret_cursor))
              (fst (scan_range caret_cursor)) (snd (scan_range caret_cursor))) = []"
    by code_simp+
  have l4: "include_args (lydocinfo_range (no_lexer_info (document nbsp_selection))
              (fst (scan_range nbsp_selection)) (snd (scan_range nbsp_selection))) = []"
           "scheme_load_args (lydocinfo_range (no_lexer_info (document nbsp_selection))
              (fst (scan_range nbsp_selection)) (snd (scan_range nbsp_selection))) = []"
    by code_simp+
  have s1: "nbsp_to_space (take (selectionEnd padded_selection - selectionStart padded_selection)
              (drop (selectionStart padded_selection) (lines_join (blocks (document padded_selection)))))
            = ''  '' @ ''foo.ly'' @ ('' '' @ [CHR 0x0A])"
    by code_simp
  have s2: "nbsp_to_space (take (selectionEnd two_block_selection - selectionStart two_block_selection)
              (drop (selectionStart two_block_selection)
                 (lines_join (blocks (document two_block_selection)))))
            = [] @ (''foo.ly '' @ [CHR 0x0A] @ ''c4'') @ []"
    by code_simp
  have s3: "nbsp_to_space (take (selectionEnd caret_cursor - selectionStart caret_cursor)
              (drop (selectionStart caret_cursor) (lines_join (blocks (document caret_cursor)))))
            = [] @ [] @ []"
    by code_simp
  have s4: "nbsp_to_space (take (selectionEnd nbsp_selection - selectionStart nbsp_selection)
              (drop (selectionStart nbsp_selection) (lines_join (blocks (document nbsp_selection)))))
            = [] @ ''my file.ly'' @ []"
    by code_simp
  have w: "\<forall>c\<in>set ''  ''. isspace c" "\<forall>c\<in>set ('' '' @ [CHR 0x0A]). isspace c"
    "\<not> isspace (hd ''foo.ly'')" "\<not> isspace (last ''foo.ly'')"
    "\<not> isspace (hd (''foo.ly '' @ [CHR 0x0A] @ ''c4''))"
    "\<not> isspace (last (''foo.ly '' @ [CHR 0x0A] @ ''c4''))"
    "\<not> isspace (hd ''my file.ly'')" "\<not> isspace (last ''my file.ly'')"
    by code_simp+
  have a: "anchor padded_selection \<noteq> cursor_position padded_selection"
    "anchor two_block_selection \<noteq> cursor_position two_block_selection"
    "anchor caret_cursor = cursor_position caret_cursor"
    "anchor nbsp_selection \<noteq> cursor_position nbsp_selection"
    by code_simp+
  have c1: "cursor_fnames violin_info padded_selection = [''  foo.ly '' @ [CHR 0x0A]]"
    using cursor_fnames_selection_fallback [where info = violin_info and cursor = padded_selection
        and pre = "''  ''" and mid = "''foo.ly''" and post = "'' '' @ [CHR 0x0A]", OF l1 refl]
      w a
    by (simp only: s1) simp
  have c2: "cursor_fnames violin_info two_block_selection = []"
    using cursor_fnames_selection_fallback [where info = violin_info and cursor = two_block_selection
        and pre = "[]" and mid = "''foo.ly '' @ [CHR 0x0A] @ ''c4''" and post = "[]", OF l2 refl]
      w a
    by (simp only: s2) simp
  have c3: "cursor_fnames violin_info caret_cursor = []"
    using cursor_fnames_selection_fallback [where info = violin_info and cursor = caret_cursor
        and pre = "[]" and mid = "[]" and post = "[]", OF l3 refl] a
    by (simp only: s3) simp
  have c4: "cursor_fnames no_lexer_info nbsp_selection = [''my file.ly'']"
    using cursor_fnames_selection_fallback [where info = no_lexer_info and cursor = nbsp_selection
        and pre = "[]" and mid = "''my file.ly''" and post = "[]", OF l4 refl]
      w a
    by (simp only: s4) simp
  from c1 c2 c3 c4 show ?thesis by blast
qed

section \<open>An occurrence with names in a document the scan does not leave\<close>

text \<open>
  Claim C7 says that every occurrence with names yields exactly one entry. In a document
  whose first block includes a file that resolves and whose second block holds the
  marker in a comment, where the lexer finds no name, the scan never returns: the entry
  of the first block is never handed to the caller.
\<close>

theorem genToolTipInfo_mixed_document:
  "occurrences (document mixed_cursor)
     = [\<lparr>blockNumber = 0, position = 0, text = include_line ''parts/violin.ly''\<rparr>,
        \<lparr>blockNumber = 1, position = 27, text = ''% '' @ include_line ''old.ly''\<rparr>]
   \<and> block_fnames (violin_info (document mixed_cursor))
        \<lparr>blockNumber = 0, position = 0, text = include_line ''parts/violin.ly''\<rparr>
       = [''parts/violin.ly'']
   \<and> first_match two_roots_fs
        (search_path (toLocalFile (document mixed_cursor)) (violin_info (document mixed_cursor)))
        ''parts/violin.ly'' = Some ''/proj/parts/violin.ly''
   \<and> block_fnames (violin_info (document mixed_cursor))
        \<lparr>blockNumber = 1, position = 27, text = ''% '' @ include_line ''old.ly''\<rparr> = []
   \<and> genToolTipInfo two_roots_fs violin_info mixed_cursor = None"
proof -
  have o: "occurrences (document mixed_cursor)
     = [\<lparr>blockNumber = 0, position = 0, text = include_line ''parts/violin.ly''\<rparr>,
        \<lparr>blockNumber = 1, position = 27, text = ''% '' @ include_line ''old.ly''\<rparr>]"
    by code_simp
  have n0: "block_fnames (violin_info (document mixed_cursor))
        \<lparr>blockNumber = 0, position = 0, text = include_line ''parts/violin.ly''\<rparr>
       = [''parts/violin.ly'']"
    by code_simp
  have m: "first_match two_roots_fs
        (search_path (toLocalFile (document mixed_cursor)) (violin_info (document mixed_cursor)))
        ''parts/violin.ly'' = Some ''/proj/parts/violin.ly''"
    by code_simp
  have n1: "block_fnames (violin_info (document mixed_cursor))
        \<lparr>blockNumber = 1, position = 27, text = ''% '' @ include_line ''old.ly''\<rparr> = []"
    by code_simp
  have "\<lparr>blockNumber = 1, position = 27, text = ''% '' @ include_line ''old.ly''\<rparr>
          \<in> set (occurrences (document mixed_cursor))"
    unfolding o by simp
  then have "genToolTipInfo two_roots_fs violin_info mixed_cursor = None"
    using n1 by (rule scan_blocked)
  with o n0 m n1 show ?thesis by blast
qed

section \<open>Exceptions of \<open>filenames_at_cursor\<close>\<close>




section \<open>The call of \<open>open_targets\<close> in \<open>open_file_at_cursor\<close>\<close>

text \<open>
  Claim C9, as stated, fails for a name with a NUL character under a search path that is
  not empty: \<open>filenames_at_cursor\<close>, evaluated before the call, raises \<open>ValueError\<close>,
  so \<open>open_targets\<close> is not called and no \<open>TypeError\<close> is raised.
\<close>

theorem open_file_at_cursor_null_counterexample:
  "filenames_at_cursor empty_fs null_info (textCursor null_window) True = Inl ValueError
   \<and> open_file_at_cursor empty_fs null_info null_window None no_host = (Inl ValueError, no_host)
   \<and> open_file_at_cursor empty_fs null_info null_window None no_host \<noteq> (Inl TypeError, no_host)"
  by code_simp

text \<open>
  Claim C9, amended. When \<open>filenames_at_cursor\<close> returns, \<open>open_file_at_cursor\<close>
  passes one argument, the list of file names, to \<open>open_targets\<close>, which has two
  parameters, and the call raises \<open>TypeError\<close>; this is so whenever no name and no
  directory of the search path holds a NUL character. When \<open>filenames_at_cursor\<close>
  raises, the exception is \<open>ValueError\<close> and it is the outcome. In every case the
  outcome is an exception and the host state is unchanged: no file is opened and none
  gets the focus.
\<close>

theorem open_file_at_cursor_raises:
  assumes "c = (case cursor of None \<Rightarrow> textCursor mainwindow | Some c' \<Rightarrow> c')"
  shows "(filenames_at_cursor fs info c True = Inr names \<longrightarrow>
            open_file_at_cursor fs info mainwindow cursor h = (Inl TypeError, h))
         \<and> (filenames_at_cursor fs info c True = Inl e \<longrightarrow>
              e = ValueError
              \<and> open_file_at_cursor fs info mainwindow cursor h = (Inl ValueError, h))
         \<and> ((\<forall>f\<in>set (cursor_fnames info c). \<not> embedded_null f)
              \<and> (\<forall>p\<in>set (search_path (toLocalFile (document c)) (info (document c))).
                    \<not> embedded_null p) \<longrightarrow>
              open_file_at_cursor fs info mainwindow cursor h = (Inl TypeError, h))
         \<and> snd (open_file_at_cursor fs info mainwindow cursor h) = h
         \<and> (\<exists>e'. fst (open_file_at_cursor fs info mainwindow cursor h) = Inl e')"
proof -
  have def: "open_file_at_cursor fs info mainwindow cursor h
      = (case filenames_at_cursor fs info c True of
           Inl e \<Rightarrow> (Inl e, h)
         | Inr filenames \<Rightarrow> (Inl TypeError, h))"
    using assms by (simp add: open_file_at_cursor_def split: sum.split)
  have one: "filenames_at_cursor fs info c True = Inr names \<longrightarrow>
            open_file_at_cursor fs info mainwindow cursor h = (Inl TypeError, h)"
    by (simp add: def)
  have two: "filenames_at_cursor fs info c True = Inl e \<longrightarrow>
              e = ValueError
              \<and> open_file_at_cursor fs info mainwindow cursor h = (Inl ValueError, h)"
    using filenames_at_cursor_raises [of fs info c True e] by (auto simp: def)
  have three: "(\<forall>f\<in>set (cursor_fnames info c). \<not> embedded_null f)
              \<and> (\<forall>p\<in>set (search_path (toLocalFile (document c)) (info (document c))).
                    \<not> embedded_null p) \<longrightarrow>
              open_file_at_cursor fs info mainwindow cursor h = (Inl TypeError, h)"
    using filenames_at_cursor_returns [of info c fs True] by (auto simp: def)
  have four: "snd (open_file_at_cursor fs info mainwindow cursor h) = h"
    by (simp add: def split: sum.split)
  have five: "\<exists>e'. fst (open_file_at_cursor fs info mainwindow cursor h) = Inl e'"
    by (simp add: def split: sum.split)
  from one two three four five show ?thesis by blast
qed

theorem open_file_at_cursor_raises_witness:
  "open_file_at_cursor two_roots_fs violin_info example_window None no_host = (Inl TypeError, no_host)
   \<and> filenames_at_cursor two_roots_fs violin_info (textCursor example_window) True
       = Inr [''/proj/parts/violin.ly'']
   \<and> open_targets [PyMainWindow, PyList [''/proj/parts/violin.ly'']] no_host
       = (Inr (PyBool True),
          \<lparr>opened = [''/proj/parts/violin.ly''], currentDocument = Some ''/proj/parts/violin.ly''\<rparr>)
   \<and> open_file_at_cursor empty_fs null_info null_window None no_host = (Inl ValueError, no_host)"
proof -
  have f: "filenames_at_cursor two_roots_fs violin_info (textCursor example_window) True
             = Inr [''/proj/parts/violin.ly'']"
    by code_simp
  have g: "filenames_at_cursor empty_fs null_info (textCursor null_window) True = Inl ValueError"
    by code_simp
  show ?thesis
    using open_file_at_cursor_raises [where cursor = None and mainwindow = example_window
        and fs = two_roots_fs and info = violin_info and h = no_host
        and names = "[''/proj/parts/violin.ly'']", OF refl]
      open_file_at_cursor_raises [where cursor = None and mainwindow = null_window
        and fs = empty_fs and info = null_info and h = no_host and e = ValueError, OF refl]
    by (simp add: f g no_host_def)
qed

section \<open>\<open>includeTarget\<close> keeps every match\<close>

text \<open>
  Claim C10. The inner loop of \<open>includeTarget\<close> does not stop at a match: the list
  returned holds, name by name, the candidate under every directory of the search path
  where it is an existing file that is not a directory, in the order of the search path,
  so a name found under k directories contributes k entries. When the lexer finds no
  name the function returns the empty string, not a list.
\<close>

theorem includeTarget_every_match:
  assumes "path = search_path (toLocalFile (document cursor)) (info (document cursor))"
  shows "includeTarget fs info cursor =
           (if includeTarget_fnames info cursor = [] then PyStr []
            else PyList (concat (map (\<lambda>f. filter (is_file fs) (map (\<lambda>p. candidate p f) path))
                                   (includeTarget_fnames info cursor))))"
  using assms by (simp add: includeTarget_def Let_def includeTarget_loop_concat)

theorem includeTarget_every_match_witness:
  "includeTarget two_roots_fs violin_info violin_cursor
     = PyList [''/proj/parts/violin.ly'', ''/lib/parts/violin.ly'']
   \<and> includeTarget two_roots_fs violin_info plain_cursor = PyStr []"
proof -
  have fn: "includeTarget_fnames violin_info violin_cursor = [''parts/violin.ly'']"
    "includeTarget_fnames violin_info plain_cursor = []"
    by code_simp+
  have sp: "search_path (toLocalFile (document violin_cursor)) (violin_info (document violin_cursor))
              = [''/proj'', ''/lib'']"
    by code_simp
  have c: "candidate ''/proj'' ''parts/violin.ly'' = ''/proj/parts/violin.ly''"
    "candidate ''/lib'' ''parts/violin.ly'' = ''/lib/parts/violin.ly''"
    by code_simp+
  have f: "is_file two_roots_fs ''/proj/parts/violin.ly''" "is_file two_roots_fs ''/lib/parts/violin.ly''"
    by code_simp+
  show ?thesis
    using includeTarget_every_match [OF refl, of two_roots_fs violin_info violin_cursor]
      includeTarget_every_match [OF refl, of two_roots_fs violin_info plain_cursor]
    by (simp add: fn sp c f)
qed

end
